theory Spec2Isabelle
  imports Main "HOL-Library.Word" "HOL-Library.Multiset"
begin

section \<open>Data model\<close>

text \<open>
  The detector (package \<^verbatim>\<open>light\<close>) reads three things of a header: its height
  (\<^verbatim>\<open>int64\<close>), its time and its hash (a byte slice). Heights and times are only compared,
  never added, so they are integers here; \<^verbatim>\<open>Time.Before\<close> is \<open><\<close> on instants. A light
  block embeds a signed header, so the header's fields are also fields of the block.
\<close>

record SignedHeader =
  Height :: int
  Time :: int
  Hash :: "8 word list"

record LightBlock = SignedHeader +
  ValidatorSet :: "8 word list"

text \<open>
  The errors a provider can answer with (package \<^verbatim>\<open>provider\<close>): three sentinel values,
  the struct \<^verbatim>\<open>ErrBadLightBlock{Reason}\<close>, and anything else (a closed connection, say).
\<close>

datatype provider_error =
    ErrNoResponse
  | ErrLightBlockNotFound
  | ErrHeightTooHigh
  | ErrBadLightBlock string
  | ErrOther string

text \<open>
  The values of Go's \<^verbatim>\<open>error\<close> that travel through the detector: a provider's error as it
  is, the two wrapper structs of package \<^verbatim>\<open>light\<close> with the witness index, the two
  sentinel errors of the client and the text of an \<^verbatim>\<open>errors.New\<close>. The Go value \<^verbatim>\<open>nil\<close>
  is \<open>None\<close> of \<open>error option\<close>.
\<close>

datatype error =
    ProviderError provider_error
  | errConflictingHeaders LightBlock nat
  | errBadWitness provider_error nat
  | ErrNoWitnesses
  | ErrFailedHeaderCrossReferencing
  | ErrorString string

text \<open>
  A provider is a remote peer whose answers may change while the detector runs (a lagging
  witness catches up). It is modelled by its answers: \<open>witness n height\<close> is what the peer
  returns to the request for \<open>height\<close> when \<open>n\<close> requests were made to it before. Height 0
  asks for the latest block.
\<close>

type_synonym Provider = "nat \<Rightarrow> int \<Rightarrow> provider_error + LightBlock"

text \<open>What one comparator does besides sending results: the requests and the sleep.\<close>

datatype event = Fetch int | Sleep "64 word"

fun fetches :: "event list \<Rightarrow> nat" where
  "fetches [] = 0"
| "fetches (Fetch h # evs) = Suc (fetches evs)"
| "fetches (Sleep d # evs) = fetches evs"

definition Provider_LightBlock ::
  "Provider \<Rightarrow> int \<Rightarrow> event list \<Rightarrow> (provider_error + LightBlock) \<times> event list" where
  "Provider_LightBlock witness height evs = (witness (fetches evs) height, evs @ [Fetch height])"

record Client =
  witnesses :: "Provider list"
  maxClockDrift :: "64 word"
  maxBlockLag :: "64 word"

section \<open>Height reconciliation\<close>

text \<open>
  \<^verbatim>\<open>getTargetBlockOrLatest\<close> returns \<^verbatim>\<open>(bool, *LightBlock, error)\<close>. A provider answers with
  a block or with an error, so the last two components are one sum here: \<open>(b, Inl err)\<close> is
  \<^verbatim>\<open>(b, nil, err)\<close> and \<open>(b, Inr lb)\<close> is \<^verbatim>\<open>(b, lb, nil)\<close>.
\<close>

definition getTargetBlockOrLatest ::
  "int \<Rightarrow> Provider \<Rightarrow> event list \<Rightarrow> (bool \<times> (provider_error + LightBlock)) \<times> event list" where
  "getTargetBlockOrLatest height witness evs =
     (let (r, evs1) = Provider_LightBlock witness 0 evs in
      case r of
        Inl err \<Rightarrow> ((False, Inl err), evs1)
      | Inr lightBlock \<Rightarrow>
          if Height lightBlock = height then ((True, Inr lightBlock), evs1)
          else if Height lightBlock > height then
            (let (r2, evs2) = Provider_LightBlock witness height evs1 in ((True, r2), evs2))
          else ((False, Inr lightBlock), evs1))"

section \<open>The witness comparator\<close>

record comparison =
  events :: "event list"
  sent :: "error option list"

text \<open>
  The statements after the \<^verbatim>\<open>switch\<close> (lines 189 to 194), reached by every \<^verbatim>\<open>break\<close>: the send
  of the conflict is not followed by a \<^verbatim>\<open>return\<close>, so the send of \<^verbatim>\<open>nil\<close> follows it.
\<close>

definition compareHashes :: "SignedHeader \<Rightarrow> LightBlock \<Rightarrow> nat \<Rightarrow> error option list" where
  "compareHashes h lightBlock witnessIndex =
     (if Hash h \<noteq> Hash lightBlock
      then [Some (errConflictingHeaders lightBlock witnessIndex)] else []) @ [None]"

definition compareNewHeaderWithWitness ::
  "Client \<Rightarrow> SignedHeader \<Rightarrow> Provider \<Rightarrow> nat \<Rightarrow> comparison" where
  "compareNewHeaderWithWitness c h witness witnessIndex =
     (let (r, evs) = Provider_LightBlock witness (Height h) [] in
      case r of
        Inr lightBlock \<Rightarrow> \<lparr>events = evs, sent = compareHashes h lightBlock witnessIndex\<rparr>
      | Inl err \<Rightarrow>
          if err = ErrNoResponse \<or> err = ErrLightBlockNotFound then
            \<lparr>events = evs, sent = [Some (ProviderError err)]\<rparr>
          else if err = ErrHeightTooHigh then
            (let ((isTargetHeight, r1), evs1) = getTargetBlockOrLatest (Height h) witness evs in
             case r1 of
               Inl err1 \<Rightarrow> \<lparr>events = evs1, sent = [Some (ProviderError err1)]\<rparr>
             | Inr lightBlock \<Rightarrow>
                 if isTargetHeight then
                   \<lparr>events = evs1, sent = compareHashes h lightBlock witnessIndex\<rparr>
                 else if \<not> Time lightBlock < Time h then
                   \<lparr>events = evs1, sent = [Some (errConflictingHeaders lightBlock witnessIndex)]\<rparr>
                 else
                   (let evs2 = evs1 @ [Sleep (2 * maxClockDrift c + maxBlockLag c)];
                        ((isTargetHeight, r3), evs3) = getTargetBlockOrLatest (Height h) witness evs2 in
                    case r3 of
                      Inl err3 \<Rightarrow> \<lparr>events = evs3, sent = [Some (errBadWitness err3 witnessIndex)]\<rparr>
                    | Inr lightBlock \<Rightarrow>
                        if isTargetHeight then
                          \<lparr>events = evs3, sent = compareHashes h lightBlock witnessIndex\<rparr>
                        else if \<not> Time lightBlock < Time h then
                          \<lparr>events = evs3,
                           sent = [Some (errConflictingHeaders lightBlock witnessIndex)]\<rparr>
                        else \<lparr>events = evs3, sent = [Some (ProviderError ErrNoResponse)]\<rparr>))
          else \<lparr>events = evs, sent = [Some (errBadWitness err witnessIndex)]\<rparr>)"

section \<open>The divergence detector\<close>

text \<open>
  The result channel \<^verbatim>\<open>errc\<close>. Each comparator is a goroutine that sends its results in
  its own order; the detector receives \<open>n\<close> values, each the oldest unreceived value of some
  comparator. \<open>delivers pend n msgs\<close>: from the comparators' result lists \<open>pend\<close>, the
  detector's \<open>n\<close> receives can yield \<open>msgs\<close>. The buffer of the channel delays a sender but
  excludes no such order.
\<close>

inductive delivers :: "'m list list \<Rightarrow> nat \<Rightarrow> 'm list \<Rightarrow> bool" where
  delivers_done: "delivers pend 0 []"
| delivers_recv: "i < length pend \<Longrightarrow> pend ! i = m # ms \<Longrightarrow> delivers (pend[i := ms]) n rest
     \<Longrightarrow> delivers pend (Suc n) (m # rest)"

text \<open>
  The loop of lines 54 to 86 over the received values, with the type switch as its body.
  The case of \<^verbatim>\<open>errBadWitness\<close> reads \<^verbatim>\<open>c.witnesses[e.WitnessIndex]\<close> for the log: out of
  range that is a runtime panic, \<open>None\<close> here.
\<close>

fun handleResults ::
  "Provider list \<Rightarrow> error option list \<Rightarrow> bool \<Rightarrow> nat list \<Rightarrow> (bool \<times> nat list) option" where
  "handleResults ws [] headerMatched witnessesToRemove = Some (headerMatched, witnessesToRemove)"
| "handleResults ws (None # rest) headerMatched witnessesToRemove =
     handleResults ws rest True witnessesToRemove"
| "handleResults ws (Some (errConflictingHeaders b i) # rest) headerMatched witnessesToRemove =
     handleResults ws rest headerMatched (witnessesToRemove @ [i])"
| "handleResults ws (Some (errBadWitness reason i) # rest) headerMatched witnessesToRemove =
     (if i < length ws then
        (case reason of
           ErrBadLightBlock _ \<Rightarrow> handleResults ws rest headerMatched (witnessesToRemove @ [i])
         | _ \<Rightarrow> handleResults ws rest headerMatched witnessesToRemove)
      else None)"
| "handleResults ws (Some _ # rest) headerMatched witnessesToRemove =
     handleResults ws rest headerMatched witnessesToRemove"

text \<open>
  Modelled from the spec: \<^verbatim>\<open>removeWitnesses\<close>, a method of the client that the detector
  calls and whose code is not among the sources. The spec has it remove all queued indices
  from the registry as one batch, the indices being positions before the removal, and names
  no condition under which it fails.
\<close>

definition removeWitnesses :: "nat list \<Rightarrow> Provider list \<Rightarrow> error option \<times> Provider list" where
  "removeWitnesses indexes ws =
     (None, map snd (filter (\<lambda>(i, w). i \<notin> set indexes) (enumerate 0 ws)))"

datatype returned = Return "error option" | Panic

record run =
  returned :: returned
  registry :: "Provider list"
  removal :: "nat list"
  locked :: bool
  launched :: "comparison list"

definition launch :: "Client \<Rightarrow> SignedHeader \<Rightarrow> comparison list" where
  "launch c h =
     map (\<lambda>(i, witness). compareNewHeaderWithWitness c h witness i) (enumerate 0 (witnesses c))"

text \<open>
  \<^verbatim>\<open>detectDivergence\<close>. The removal of witnesses is the parameter \<open>rm\<close> (the method is not
  among the sources); \<open>received\<close> is what the channel delivers to the loop, a sequence that
  \<open>delivers\<close> allows for the launched comparators. \<open>locked\<close> says whether the call reached
  \<^verbatim>\<open>providerMutex.Lock()\<close>; the deferred unlock releases it on every return. \<open>removal\<close> is
  the batch of indices handed to \<^verbatim>\<open>removeWitnesses\<close>, empty when the call ends before.
\<close>

definition detectDivergence ::
  "(nat list \<Rightarrow> Provider list \<Rightarrow> error option \<times> Provider list) \<Rightarrow> Client \<Rightarrow>
   LightBlock list option \<Rightarrow> error option list \<Rightarrow> run" where
  "detectDivergence rm c primaryTrace received =
     (if primaryTrace = None \<or> length (the primaryTrace) < 2 then
        \<lparr>returned = Return (Some (ErrorString ''nil or single block primary trace'')),
         registry = witnesses c, removal = [], locked = False, launched = []\<rparr>
      else
        let lastVerifiedHeader = SignedHeader.truncate (last (the primaryTrace)) in
        if length (witnesses c) = 0 then
          \<lparr>returned = Return (Some ErrNoWitnesses),
           registry = witnesses c, removal = [], locked = True, launched = []\<rparr>
        else
          let comparators = launch c lastVerifiedHeader in
          case handleResults (witnesses c) received False [] of
            None \<Rightarrow>
              \<lparr>returned = Panic, registry = witnesses c, removal = [], locked = True,
               launched = comparators\<rparr>
          | Some (headerMatched, witnessesToRemove) \<Rightarrow>
              (case rm witnessesToRemove (witnesses c) of
                 (Some err, ws) \<Rightarrow>
                   \<lparr>returned = Return (Some err), registry = ws, removal = witnessesToRemove,
                    locked = True, launched = comparators\<rparr>
               | (None, ws) \<Rightarrow>
                   if headerMatched then
                     \<lparr>returned = Return None, registry = ws, removal = witnessesToRemove,
                      locked = True, launched = comparators\<rparr>
                   else
                     \<lparr>returned = Return (Some ErrFailedHeaderCrossReferencing), registry = ws,
                      removal = witnessesToRemove, locked = True, launched = comparators\<rparr>))"

text \<open>
  The sequences the channel can deliver in a run on registry \<open>witnesses c\<close> and trace
  \<open>trace\<close>: one receive for each launched comparator.
\<close>

definition deliverable :: "Client \<Rightarrow> LightBlock list \<Rightarrow> error option list \<Rightarrow> bool" where
  "deliverable c trace received =
     delivers (map sent (launch c (SignedHeader.truncate (last trace))))
       (length (witnesses c)) received"

section \<open>HexBytes\<close>

text \<open>
  \<^verbatim>\<open>HexBytes\<close> is a Go byte slice: a window of \<open>len\<close> bytes on a backing array, of which
  \<open>array\<close> is the part from the slice's first byte to its capacity. The bytes of the value
  are the first \<open>len\<close> of them. A slice expression \<^verbatim>\<open>bz[:3]\<close> on a slice is in range when 3 is
  at most the capacity (not the length), and panics otherwise.
\<close>

record HexBytes =
  array :: "8 word list"
  len :: nat

definition cap :: "HexBytes \<Rightarrow> nat" where
  "cap bz = length (array bz)"

definition wellformed :: "HexBytes \<Rightarrow> bool" where
  "wellformed bz = (len bz \<le> cap bz)"

definition Bytes :: "HexBytes \<Rightarrow> 8 word list" where
  "Bytes bz = take (len bz) (array bz)"

datatype panic = SliceBoundsOutOfRange

definition slice_to :: "HexBytes \<Rightarrow> nat \<Rightarrow> panic + HexBytes" where
  "slice_to bz high = (if high \<le> cap bz then Inr (bz\<lparr>len := high\<rparr>) else Inl SliceBoundsOutOfRange)"

text \<open>
  \<^verbatim>\<open>hex.EncodeToString\<close> and \<^verbatim>\<open>strings.ToUpper\<close> of the standard library. \<^verbatim>\<open>ToUpper\<close> is
  modelled on ASCII, which is all that the hex encoding produces: the letters \<open>a\<close> to \<open>z\<close>
  (codes 97 to 122) move down by 32.
\<close>

definition hextable :: string where
  "hextable = ''0123456789abcdef''"

fun EncodeToString :: "8 word list \<Rightarrow> string" where
  "EncodeToString [] = []"
| "EncodeToString (v # src) =
     hextable ! unat (drop_bit 4 v) # hextable ! unat (and v 0x0f) # EncodeToString src"

definition ToUpper :: "string \<Rightarrow> string" where
  "ToUpper s =
     map (\<lambda>c. let n = (of_char c :: nat) in if 97 \<le> n \<and> n \<le> 122 then char_of (n - 32) else c) s"

definition ShortString :: "HexBytes \<Rightarrow> panic + string" where
  "ShortString bz =
     (case slice_to bz 3 of
        Inl p \<Rightarrow> Inl p
      | Inr bz3 \<Rightarrow> Inr (ToUpper (EncodeToString (Bytes bz3))))"

section \<open>Auxiliary notions\<close>

text \<open>The witness index a result carries, and whether the loop queues it for removal.\<close>

fun witnessIndexOf :: "error option \<Rightarrow> nat option" where
  "witnessIndexOf (Some (errConflictingHeaders b i)) = Some i"
| "witnessIndexOf (Some (errBadWitness r i)) = Some i"
| "witnessIndexOf _ = None"

fun queues :: "error option \<Rightarrow> bool" where
  "queues (Some (errConflictingHeaders b i)) = True"
| "queues (Some (errBadWitness (ErrBadLightBlock s) i)) = True"
| "queues _ = False"

text \<open>
  The deliveries of the channel, computed from a schedule: the list of the comparators whose
  oldest unreceived value the detector receives next. \<open>None\<close> when the schedule names a
  comparator that does not exist or has nothing left to send.
\<close>

fun scheduled :: "nat list \<Rightarrow> 'm list list \<Rightarrow> 'm list option" where
  "scheduled [] pend = Some []"
| "scheduled (i # sched) pend =
     (if i < length pend then
        (case pend ! i of
           [] \<Rightarrow> None
         | m # ms \<Rightarrow> map_option ((#) m) (scheduled sched (pend[i := ms])))
      else None)"

text \<open>Values for examples: a block, and a provider that answers from a script.\<close>

definition block :: "int \<Rightarrow> int \<Rightarrow> 8 word list \<Rightarrow> LightBlock" where
  "block height time hash = \<lparr>Height = height, Time = time, Hash = hash, ValidatorSet = []\<rparr>"

definition answering :: "(provider_error + LightBlock) list \<Rightarrow> Provider" where
  "answering script n height = (if n < length script then script ! n else Inl ErrNoResponse)"

definition client :: "Provider list \<Rightarrow> Client" where
  "client ws = \<lparr>witnesses = ws, maxClockDrift = 10, maxBlockLag = 500\<rparr>"

section \<open>Height reconciliation: \<^verbatim>\<open>getTargetBlockOrLatest\<close>\<close>

lemma fetches_append: "fetches (evs @ evs') = fetches evs + fetches evs'"
  by (induction evs rule: fetches.induct) auto

text \<open>
  C6: \<^verbatim>\<open>getTargetBlockOrLatest\<close> first asks the witness for its latest block (height 0). An
  error of that request is returned with no block and \<open>False\<close>. A latest block at the target
  height is returned with \<open>True\<close>. A latest block above the target height is followed by
  exactly one more request, at the target height, whose answer is returned with \<open>True\<close>. A
  latest block below the target height is returned with \<open>False\<close>. The event lists show the
  requests made in each case.
\<close>

theorem getTargetBlockOrLatest_cases:
  "(witness (fetches evs) 0 = Inl err \<longrightarrow>
      getTargetBlockOrLatest height witness evs = ((False, Inl err), evs @ [Fetch 0]))
   \<and> (witness (fetches evs) 0 = Inr latest \<and> Height latest = height \<longrightarrow>
      getTargetBlockOrLatest height witness evs = ((True, Inr latest), evs @ [Fetch 0]))
   \<and> (witness (fetches evs) 0 = Inr latest \<and> Height latest > height \<longrightarrow>
      getTargetBlockOrLatest height witness evs =
        ((True, witness (Suc (fetches evs)) height), evs @ [Fetch 0, Fetch height]))
   \<and> (witness (fetches evs) 0 = Inr latest \<and> Height latest < height \<longrightarrow>
      getTargetBlockOrLatest height witness evs = ((False, Inr latest), evs @ [Fetch 0]))"
  by (simp add: getTargetBlockOrLatest_def Provider_LightBlock_def fetches_append)

theorem getTargetBlockOrLatest_cases_witness:
  "getTargetBlockOrLatest 5 (answering [Inl ErrNoResponse]) []
     = ((False, Inl ErrNoResponse), [Fetch 0])
   \<and> getTargetBlockOrLatest 5 (answering [Inr (block 5 100 [1])]) []
     = ((True, Inr (block 5 100 [1])), [Fetch 0])
   \<and> getTargetBlockOrLatest 5 (answering [Inr (block 9 140 [4]), Inr (block 5 100 [1])]) []
     = ((True, Inr (block 5 100 [1])), [Fetch 0, Fetch 5])
   \<and> getTargetBlockOrLatest 5 (answering [Inr (block 3 80 [7])]) []
     = ((False, Inr (block 3 80 [7])), [Fetch 0])"
  using getTargetBlockOrLatest_cases
      [where witness = "answering [Inl ErrNoResponse]" and evs = "[]" and err = ErrNoResponse
         and height = 5]
    getTargetBlockOrLatest_cases
      [where witness = "answering [Inr (block 5 100 [1])]" and evs = "[]"
         and latest = "block 5 100 [1]" and height = 5]
    getTargetBlockOrLatest_cases
      [where witness = "answering [Inr (block 9 140 [4]), Inr (block 5 100 [1])]" and evs = "[]"
         and latest = "block 9 140 [4]" and height = 5]
    getTargetBlockOrLatest_cases
      [where witness = "answering [Inr (block 3 80 [7])]" and evs = "[]"
         and latest = "block 3 80 [7]" and height = 5]
  by (simp add: answering_def block_def)

section \<open>Preconditions of \<^verbatim>\<open>detectDivergence\<close>\<close>

text \<open>
  C7: when the trace is nil or has fewer than two blocks, \<^verbatim>\<open>detectDivergence\<close> returns the
  error "nil or single block primary trace", whatever the registry holds and whatever the
  removal method and the channel would do; the lock has not been taken, no comparator has
  been launched (so no witness was asked anything) and the registry is as it was.
\<close>

theorem detectDivergence_short_trace:
  assumes "primaryTrace = None \<or> (\<exists>t. primaryTrace = Some t \<and> length t < 2)"
  shows "detectDivergence rm c primaryTrace received =
     \<lparr>returned = Return (Some (ErrorString ''nil or single block primary trace'')),
      registry = witnesses c, removal = [], locked = False, launched = []\<rparr>"
  using assms by (auto simp: detectDivergence_def)

theorem detectDivergence_short_trace_witness:
  "length [block 5 100 [1]] < 2
   \<and> detectDivergence removeWitnesses (client [answering []]) (Some [block 5 100 [1]]) [] =
     \<lparr>returned = Return (Some (ErrorString ''nil or single block primary trace'')),
      registry = [answering []], removal = [], locked = False, launched = []\<rparr>
   \<and> detectDivergence removeWitnesses (client []) None [] =
     \<lparr>returned = Return (Some (ErrorString ''nil or single block primary trace'')),
      registry = [], removal = [], locked = False, launched = []\<rparr>"
  using detectDivergence_short_trace
      [where primaryTrace = "Some [block 5 100 [1]]" and rm = removeWitnesses
         and c = "client [answering []]" and received = "[]"]
    detectDivergence_short_trace
      [where primaryTrace = None and rm = removeWitnesses and c = "client []" and received = "[]"]
  by (simp add: client_def)

text \<open>
  C8: on a trace of at least two blocks and an empty registry, \<^verbatim>\<open>detectDivergence\<close> returns
  \<^verbatim>\<open>ErrNoWitnesses\<close>; the lock was taken, no comparator has been launched (so no request
  went to any provider), nothing was handed to the removal and the registry is still empty.
\<close>

theorem detectDivergence_no_witnesses:
  assumes "2 \<le> length trace" and "witnesses c = []"
  shows "detectDivergence rm c (Some trace) received =
     \<lparr>returned = Return (Some ErrNoWitnesses), registry = witnesses c, removal = [],
      locked = True, launched = []\<rparr>"
  using assms by (simp add: detectDivergence_def)

theorem detectDivergence_no_witnesses_witness:
  "2 \<le> length [block 1 10 [9], block 5 100 [1]] \<and> witnesses (client []) = []
   \<and> detectDivergence removeWitnesses (client []) (Some [block 1 10 [9], block 5 100 [1]]) [] =
     \<lparr>returned = Return (Some ErrNoWitnesses), registry = [], removal = [],
      locked = True, launched = []\<rparr>"
  using detectDivergence_no_witnesses
    [where trace = "[block 1 10 [9], block 5 100 [1]]" and c = "client []"
       and rm = removeWitnesses and received = "[]"]
  by (simp add: client_def)

section \<open>Comparators, the channel and the loop\<close>

text \<open>
  Facts used below. A comparator sends at least one result, and every index its results
  carry is its own. What the channel delivers comes from the comparators' results, in full
  when the number of receives is the number of results. The loop is a fold: it sets the
  flag at a \<^verbatim>\<open>nil\<close> and queues the index of every result for which \<open>queues\<close> holds; it
  cannot panic in a run, where every index is in range.
\<close>

lemma compareHashes_index:
  "m \<in> set (compareHashes h b i) \<Longrightarrow> witnessIndexOf m = None \<or> witnessIndexOf m = Some i"
  by (auto simp: compareHashes_def split: if_splits)

lemma compareHashes_nonempty: "compareHashes h b i \<noteq> []"
  by (simp add: compareHashes_def)

lemma sent_index:
  "\<forall>m \<in> set (sent (compareNewHeaderWithWitness c h w i)). witnessIndexOf m = None \<or> witnessIndexOf m = Some i"
  unfolding compareNewHeaderWithWitness_def
  by (simp add: Let_def compareHashes_index split: sum.split prod.split)

lemma sent_nonempty: "sent (compareNewHeaderWithWitness c h w i) \<noteq> []"
  unfolding compareNewHeaderWithWitness_def
  by (simp add: Let_def compareHashes_nonempty split: sum.split prod.split)

lemma concat_update_mset:
  "i < length pend \<Longrightarrow> pend ! i = m # ms \<Longrightarrow>
   mset (concat pend) = add_mset m (mset (concat (pend[i := ms])))"
proof (induction pend arbitrary: i)
  case Nil
  then show ?case by simp
next
  case (Cons p ps)
  then show ?case by (cases i) auto
qed

lemma delivers_length: "delivers pend n msgs \<Longrightarrow> length msgs = n"
  by (induction rule: delivers.induct) auto

lemma delivers_mset: "delivers pend n msgs \<Longrightarrow> mset msgs \<subseteq># mset (concat pend)"
proof (induction rule: delivers.induct)
  case (delivers_done pend)
  then show ?case by simp
next
  case (delivers_recv i pend m ms n rest)
  then show ?case by (simp add: concat_update_mset [of i pend m ms])
qed

lemma delivers_set:
  assumes "delivers pend n msgs" and "m \<in> set msgs"
  shows "\<exists>j<length pend. m \<in> set (pend ! j)"
proof -
  have "m \<in># mset (concat pend)"
    using assms delivers_mset [of pend n msgs] by (meson in_multiset_in_set mset_subset_eqD)
  then obtain p where "p \<in> set pend" "m \<in> set p" by auto
  then show ?thesis by (metis in_set_conv_nth)
qed

lemma delivers_all:
  assumes "delivers pend n msgs" and "n = length (concat pend)"
  shows "mset msgs = mset (concat pend)"
proof -
  from assms(1) obtain C where C: "mset (concat pend) = mset msgs + C"
    using delivers_mset [of pend n msgs] by (auto simp: mset_subset_eq_exists_conv)
  have "size (mset (concat pend)) = size (mset msgs)"
    using assms delivers_length [of pend n msgs] by simp
  with C have "C = {#}" by simp
  with C show ?thesis by simp
qed

lemma delivers_exists_aux:
  "\<forall>p \<in> set pend. p \<noteq> [] \<Longrightarrow> delivers (pre @ pend) (length pend) (map hd pend)"
proof (induction pend arbitrary: pre)
  case Nil
  then show ?case by (simp add: delivers_done)
next
  case (Cons p ps)
  then obtain m ms where p: "p = m # ms" by (cases p) auto
  have "delivers ((pre @ [ms]) @ ps) (length ps) (map hd ps)"
    using Cons.prems by (intro Cons.IH) simp
  then have "delivers ((pre @ p # ps)[length pre := ms]) (length ps) (map hd ps)"
    by simp
  then have "delivers (pre @ p # ps) (Suc (length ps)) (m # map hd ps)"
    by (rule delivers_recv [rotated 2]) (simp_all add: p)
  then show ?case by (simp add: p)
qed

lemma scheduled_delivers:
  "scheduled sched pend = Some msgs \<Longrightarrow> delivers pend (length sched) msgs"
proof (induction sched arbitrary: pend msgs)
  case Nil
  then show ?case by (simp add: delivers_done)
next
  case (Cons i sched)
  then show ?case
    by (auto split: if_splits list.splits intro: delivers_recv)
qed

lemma delivers_scheduled:
  "delivers pend n msgs \<Longrightarrow> \<exists>sched. length sched = n \<and> scheduled sched pend = Some msgs"
proof (induction rule: delivers.induct)
  case (delivers_done pend)
  then show ?case by simp
next
  case (delivers_recv i pend m ms n rest)
  then obtain sched where "length sched = n" "scheduled sched (pend[i := ms]) = Some rest"
    by blast
  with delivers_recv.hyps(1,2) have "length (i # sched) = Suc n \<and> scheduled (i # sched) pend = Some (m # rest)"
    by simp
  then show ?case by blast
qed

lemma handleResults_eq:
  "\<forall>m\<in>set msgs. \<forall>i. witnessIndexOf m = Some i \<longrightarrow> i < length ws \<Longrightarrow>
   handleResults ws msgs hm wtr =
     Some (hm \<or> None \<in> set msgs, wtr @ map (the \<circ> witnessIndexOf) (filter queues msgs))"
proof (induction ws msgs hm wtr rule: handleResults.induct)
  case (4 ws reason i rest headerMatched witnessesToRemove)
  then show ?case by (cases reason) auto
qed auto

lemma length_launch: "length (launch c h) = length (witnesses c)"
  by (simp add: launch_def)

lemma nth_launch:
  "i < length (witnesses c) \<Longrightarrow>
   launch c h ! i = compareNewHeaderWithWitness c h (witnesses c ! i) i"
  by (simp add: launch_def nth_enumerate_eq)

lemma deliverable_origin:
  assumes "deliverable c trace received" and "m \<in> set received" and "witnessIndexOf m = Some i"
  shows "i < length (witnesses c) \<and> m \<in> set (sent (launch c (SignedHeader.truncate (last trace)) ! i))"
proof -
  let ?h = "SignedHeader.truncate (last trace)"
  from assms(1,2) obtain j where j: "j < length (witnesses c)" "m \<in> set (sent (launch c ?h ! j))"
    using delivers_set [of "map sent (launch c ?h)" "length (witnesses c)" received m]
    by (auto simp: deliverable_def length_launch)
  then have "witnessIndexOf m = None \<or> witnessIndexOf m = Some j"
    using sent_index [of c ?h "witnesses c ! j" j] by (simp add: nth_launch)
  with assms(3) have "j = i" by simp
  with j show ?thesis by simp
qed

lemma detectDivergence_run:
  assumes "2 \<le> length trace" and "witnesses c \<noteq> []" and "deliverable c trace received"
  shows "detectDivergence rm c (Some trace) received =
     (let witnessesToRemove = map (the \<circ> witnessIndexOf) (filter queues received);
          (e, ws) = rm witnessesToRemove (witnesses c)
      in \<lparr>returned = Return (case e of Some err \<Rightarrow> Some err
                             | None \<Rightarrow> if None \<in> set received then None
                                       else Some ErrFailedHeaderCrossReferencing),
          registry = ws, removal = witnessesToRemove, locked = True,
          launched = launch c (SignedHeader.truncate (last trace))\<rparr>)"
proof -
  have "\<forall>m\<in>set received. \<forall>i. witnessIndexOf m = Some i \<longrightarrow> i < length (witnesses c)"
    using deliverable_origin [OF assms(3)] by blast
  then have "handleResults (witnesses c) received False [] =
      Some (None \<in> set received, map (the \<circ> witnessIndexOf) (filter queues received))"
    using handleResults_eq [of received "witnesses c" False "[]"] by simp
  with assms(1,2) show ?thesis
    by (simp add: detectDivergence_def Let_def split: prod.split option.split)
qed

lemma removal_origin:
  assumes "2 \<le> length trace" and "deliverable c trace received"
    and "i \<in> set (removal (detectDivergence rm c (Some trace) received))"
  shows "i < length (witnesses c) \<and>
     (\<exists>m \<in> set (sent (launch c (SignedHeader.truncate (last trace)) ! i)). queues m)"
proof (cases "witnesses c = []")
  case True
  with assms(1,3) show ?thesis by (simp add: detectDivergence_def)
next
  case False
  from assms(3) obtain m where m: "m \<in> set received" "queues m" "i = the (witnessIndexOf m)"
    using detectDivergence_run [OF assms(1) False assms(2), of rm]
    by (auto simp: Let_def split: prod.splits)
  from m(2) have "witnessIndexOf m \<noteq> None" by (cases m rule: queues.cases) auto
  with m(3) have "witnessIndexOf m = Some i" by auto
  with deliverable_origin [OF assms(2) m(1)] m(2) show ?thesis by blast
qed

lemma deliverable_exists: "\<exists>received. deliverable c trace received"
proof -
  let ?pend = "map sent (launch c (SignedHeader.truncate (last trace)))"
  have "\<forall>p \<in> set ?pend. p \<noteq> []"
    by (auto simp: launch_def sent_nonempty)
  then have "delivers ([] @ ?pend) (length ?pend) (map hd ?pend)"
    by (rule delivers_exists_aux)
  then show ?thesis by (auto simp: deliverable_def length_launch)
qed

lemma witnesses_client: "witnesses (client ws) = ws"
  by (simp add: client_def)

lemma removeWitnesses_none: "removeWitnesses [] ws = (None, ws)"
  by (simp add: removeWitnesses_def)

lemma removeWitnesses_keeps:
  assumes "i < length ws" and "i \<notin> set indexes"
  shows "ws ! i \<in> set (snd (removeWitnesses indexes ws))"
proof -
  have "(i, ws ! i) \<in> set (enumerate 0 ws)"
    using assms(1) by (simp add: in_set_enumerate_eq)
  with assms(2) have "(i, ws ! i) \<in> set (filter (\<lambda>(i, w). i \<notin> set indexes) (enumerate 0 ws))"
    by simp
  then have "snd (i, ws ! i) \<in> snd ` set (filter (\<lambda>(i, w). i \<notin> set indexes) (enumerate 0 ws))"
    by (rule imageI)
  then show ?thesis by (simp add: removeWitnesses_def)
qed

lemma length_concat_singletons:
  "\<forall>p \<in> set pend. length p = 1 \<Longrightarrow> length (concat pend) = length pend"
  by (induction pend) auto

lemma sent_match:
  "witness 0 (Height h) = Inr b \<Longrightarrow> Hash b = Hash h \<Longrightarrow>
   sent (compareNewHeaderWithWitness c h witness i) = [None]"
  by (simp add: compareNewHeaderWithWitness_def Provider_LightBlock_def compareHashes_def)

lemma sent_no_opinion:
  "witness 0 (Height h) = Inl e \<Longrightarrow> e = ErrNoResponse \<or> e = ErrLightBlockNotFound \<Longrightarrow>
   sent (compareNewHeaderWithWitness c h witness i) = [Some (ProviderError e)]"
  by (auto simp add: compareNewHeaderWithWitness_def Provider_LightBlock_def)

lemma handleResults_errBadWitness:
  "i < length ws \<Longrightarrow>
   handleResults ws (Some (errBadWitness reason i) # rest) hm wtr =
     handleResults ws rest hm (if (\<exists>s. reason = ErrBadLightBlock s) then wtr @ [i] else wtr)"
  by (cases reason) auto

lemma not_queued_not_removed:
  assumes "2 \<le> length trace" and "deliverable c trace received"
    and "\<forall>m \<in> set (sent (launch c (SignedHeader.truncate (last trace)) ! i)). \<not> queues m"
  shows "i \<notin> set (removal (detectDivergence rm c (Some trace) received))"
  using removal_origin [OF assms(1,2), of i rm] assms(3) by blast

lemma queued_removed:
  assumes "2 \<le> length trace" and "deliverable c trace received"
    and "i < length (witnesses c)"
    and "m \<in> set received" and "queues m" and "witnessIndexOf m = Some i"
  shows "i \<in> set (removal (detectDivergence rm c (Some trace) received))"
proof -
  have "witnesses c \<noteq> []" using assms(3) by auto
  from detectDivergence_run [OF assms(1) this assms(2), of rm]
  have "removal (detectDivergence rm c (Some trace) received) =
      map (the \<circ> witnessIndexOf) (filter queues received)"
    by (simp add: Let_def split: prod.split)
  moreover have "(the \<circ> witnessIndexOf) m \<in> (the \<circ> witnessIndexOf) ` set (filter queues received)"
    using assms(4,5) by (intro imageI) simp
  ultimately show ?thesis using assms(6) by simp
qed

lemma compareHashes_not_bad:
  "Some (errBadWitness r k) \<notin> set (compareHashes h b i)"
  by (simp add: compareHashes_def)

lemma bad_witness_alone_aux:
  "\<forall>m \<in> set (sent (compareNewHeaderWithWitness c h w i)).
     m = Some (errBadWitness r k) \<longrightarrow> sent (compareNewHeaderWithWitness c h w i) = [m]"
  unfolding compareNewHeaderWithWitness_def
  by (simp add: Let_def compareHashes_not_bad split: sum.split prod.split)

lemma bad_witness_alone:
  assumes "deliverable c trace received" and "Some (errBadWitness r n) \<in> set received"
  shows "n < length (witnesses c) \<and>
     sent (launch c (SignedHeader.truncate (last trace)) ! n) = [Some (errBadWitness r n)]"
proof -
  let ?h = "SignedHeader.truncate (last trace)"
  have o: "n < length (witnesses c)" "Some (errBadWitness r n) \<in> set (sent (launch c ?h ! n))"
    using deliverable_origin [OF assms, of n] by simp_all
  then have "sent (compareNewHeaderWithWitness c ?h (witnesses c ! n) n) = [Some (errBadWitness r n)]"
    using bad_witness_alone_aux [of c ?h "witnesses c ! n" n r n] by (simp add: nth_launch)
  with o(1) show ?thesis by (simp add: nth_launch)
qed

lemma bad_witness_queued_iff:
  assumes "2 \<le> length trace" and "deliverable c trace received"
    and "Some (errBadWitness reason n) \<in> set received"
  shows "n \<in> set (removal (detectDivergence rm c (Some trace) received))
     \<longleftrightarrow> (\<exists>s. reason = ErrBadLightBlock s)"
proof
  assume "n \<in> set (removal (detectDivergence rm c (Some trace) received))"
  then obtain m where "m \<in> set (sent (launch c (SignedHeader.truncate (last trace)) ! n))"
      "queues m"
    using removal_origin [OF assms(1,2), of n rm] by blast
  then have "queues (Some (errBadWitness reason n))"
    using bad_witness_alone [OF assms(2,3)] by simp
  then show "\<exists>s. reason = ErrBadLightBlock s" by (cases reason) auto
next
  assume "\<exists>s. reason = ErrBadLightBlock s"
  then have "queues (Some (errBadWitness reason n))" by auto
  moreover have "n < length (witnesses c)" using bad_witness_alone [OF assms(2,3)] by simp
  ultimately show "n \<in> set (removal (detectDivergence rm c (Some trace) received))"
    using queued_removed [OF assms(1,2) _ assms(3), of n rm] by simp
qed

lemma one_match_rest_silent:
  assumes "2 \<le> length trace" and "h = SignedHeader.truncate (last trace)"
    and "deliverable c trace received"
    and "k < length (witnesses c)"
    and "sent (launch c h ! k) = [None]"
    and "\<forall>j<length (witnesses c). j \<noteq> k \<longrightarrow> (\<exists>m. sent (launch c h ! j) = [m] \<and> \<not> queues m)"
    and "rm [] (witnesses c) = (None, witnesses c)"
  shows "detectDivergence rm c (Some trace) received =
     \<lparr>returned = Return None, registry = witnesses c, removal = [], locked = True,
      launched = launch c h\<rparr>"
proof -
  let ?pend = "map sent (launch c h)"
  have k: "?pend ! k = [None]"
    using assms(4,5) by (simp add: length_launch)
  have each: "\<exists>m. ?pend ! j = [m] \<and> \<not> queues m" if "j < length ?pend" for j
  proof (cases "j = k")
    case True
    with k show ?thesis by simp
  next
    case False
    with that assms(6) show ?thesis by (simp add: length_launch)
  qed
  have "\<forall>p \<in> set ?pend. length p = 1"
  proof
    fix p assume "p \<in> set ?pend"
    then obtain j where "j < length ?pend" "p = ?pend ! j"
      by (metis in_set_conv_nth)
    with each [of j] show "length p = 1" by auto
  qed
  then have len: "length (witnesses c) = length (concat ?pend)"
    using length_concat_singletons [of ?pend] by (simp add: length_launch)
  have d: "delivers ?pend (length (witnesses c)) received"
    using assms(2,3) by (simp add: deliverable_def)
  have all: "mset received = mset (concat ?pend)"
    using d len by (rule delivers_all)
  have "None \<in> set (?pend ! k)" using k by simp
  moreover have "?pend ! k \<in> set ?pend"
    using assms(4) by (intro nth_mem) (simp add: length_launch)
  ultimately have "None \<in> set (concat ?pend)" by auto
  then have matched: "None \<in> set received"
    using all by (metis set_mset_mset)
  have "\<not> queues m" if "m \<in> set received" for m
  proof -
    from delivers_set [OF d that] obtain j where "j < length ?pend" "m \<in> set (?pend ! j)"
      by blast
    with each [of j] show ?thesis by auto
  qed
  then have "\<forall>m \<in> set received. \<not> queues m" by blast
  then have none: "filter queues received = []" by (simp add: filter_empty_conv)
  have "witnesses c \<noteq> []" using assms(4) by auto
  from detectDivergence_run [OF assms(1) this assms(3), of rm] show ?thesis
    using matched none assms(2,7) by simp
qed

section \<open>The comparator's results\<close>

text \<open>
  C2: the claim is that every call of \<^verbatim>\<open>compareNewHeaderWithWitness\<close> sends exactly one
  result, the conflict when the hashes differ and \<^verbatim>\<open>nil\<close> when they are equal, never both.
  The code sends both when the hashes differ: the send of the conflict at line 190 is not
  followed by a \<^verbatim>\<open>return\<close>. Here the witness answers the first request with a block at
  the target height 5 whose hash \<open>[2]\<close> is not the primary's \<open>[1]\<close>, and the comparator sends
  the conflict and then \<^verbatim>\<open>nil\<close>.
\<close>

theorem compareNewHeaderWithWitness_conflict_then_nil:
  "compareNewHeaderWithWitness (client []) \<lparr>Height = 5, Time = 100, Hash = [1]\<rparr>
     (answering [Inr (block 5 100 [2])]) 0 =
   \<lparr>events = [Fetch 5], sent = [Some (errConflictingHeaders (block 5 100 [2]) 0), None]\<rparr>"
  by (simp add: compareNewHeaderWithWitness_def Provider_LightBlock_def compareHashes_def
      answering_def block_def)

text \<open>
  C4: in the branch of \<^verbatim>\<open>ErrHeightTooHigh\<close>, when the witness's latest block is below the
  height of the primary's header and its time is not before the primary's, the comparator
  sends the conflict with that block and its own index, and nothing else; its events are
  the two requests, with no sleep.
\<close>

theorem lagging_witness_time_conflict:
  assumes "witness 0 (Height h) = Inl ErrHeightTooHigh"
      and "witness 1 0 = Inr latest"
      and "Height latest < Height h"
      and "\<not> Time latest < Time h"
  shows "compareNewHeaderWithWitness c h witness witnessIndex =
     \<lparr>events = [Fetch (Height h), Fetch 0],
      sent = [Some (errConflictingHeaders latest witnessIndex)]\<rparr>"
  using assms
  by (simp add: compareNewHeaderWithWitness_def getTargetBlockOrLatest_def
      Provider_LightBlock_def)

theorem lagging_witness_time_conflict_witness:
  "compareNewHeaderWithWitness (client []) \<lparr>Height = 5, Time = 100, Hash = [1]\<rparr>
     (answering [Inl ErrHeightTooHigh, Inr (block 3 100 [7])]) 4 =
   \<lparr>events = [Fetch 5, Fetch 0], sent = [Some (errConflictingHeaders (block 3 100 [7]) 4)]\<rparr>"
  using lagging_witness_time_conflict
    [where witness = "answering [Inl ErrHeightTooHigh, Inr (block 3 100 [7])]"
       and h = "\<lparr>Height = 5, Time = 100, Hash = [1]\<rparr>" and latest = "block 3 100 [7]"
       and c = "client []" and witnessIndex = 4]
  by (simp add: answering_def block_def)

lemma lagging_twice:
  assumes "witness 0 (Height h) = Inl ErrHeightTooHigh"
      and "witness 1 0 = Inr latest"
      and "Height latest < Height h"
      and "Time latest < Time h"
      and "witness 2 0 = Inr latest'"
      and "Height latest' < Height h"
      and "Time latest' < Time h"
  shows "compareNewHeaderWithWitness c h witness witnessIndex =
     \<lparr>events = [Fetch (Height h), Fetch 0, Sleep (2 * maxClockDrift c + maxBlockLag c), Fetch 0],
      sent = [Some (ProviderError ErrNoResponse)]\<rparr>"
  using assms
  by (simp add: compareNewHeaderWithWitness_def getTargetBlockOrLatest_def
      Provider_LightBlock_def numeral_2_eq_2)

text \<open>
  C5: a run on a trace of at least two blocks, in which witness \<open>i\<close> answers the request for
  the target height with \<^verbatim>\<open>ErrHeightTooHigh\<close> and then twice has a latest block below the
  target height with a time before the primary's. Its comparator asks for the target height
  and for the latest block, sleeps \<open>2 * maxClockDrift + maxBlockLag\<close> (in the 64-bit
  arithmetic of \<^verbatim>\<open>time.Duration\<close>), asks for the latest block once more and sends
  \<^verbatim>\<open>ErrNoResponse\<close>, its only result. Whatever the channel delivers and whatever the removal
  method does, index \<open>i\<close> is not in the batch handed to the removal.
\<close>

theorem lagging_witness_inconclusive:
  assumes "2 \<le> length trace" and "i < length (witnesses c)"
      and "h = SignedHeader.truncate (last trace)"
      and "(witnesses c ! i) 0 (Height h) = Inl ErrHeightTooHigh"
      and "(witnesses c ! i) 1 0 = Inr latest"
      and "Height latest < Height h" and "Time latest < Time h"
      and "(witnesses c ! i) 2 0 = Inr latest'"
      and "Height latest' < Height h" and "Time latest' < Time h"
      and "deliverable c trace received"
  shows "launch c h ! i =
       \<lparr>events = [Fetch (Height h), Fetch 0, Sleep (2 * maxClockDrift c + maxBlockLag c),
                  Fetch 0],
        sent = [Some (ProviderError ErrNoResponse)]\<rparr>
     \<and> i \<notin> set (removal (detectDivergence rm c (Some trace) received))"
proof -
  have l: "launch c h ! i =
       \<lparr>events = [Fetch (Height h), Fetch 0, Sleep (2 * maxClockDrift c + maxBlockLag c),
                  Fetch 0],
        sent = [Some (ProviderError ErrNoResponse)]\<rparr>"
    using assms(2) lagging_twice [OF assms(4-10), of c i] by (simp add: nth_launch)
  have "i \<notin> set (removal (detectDivergence rm c (Some trace) received))"
  proof
    assume "i \<in> set (removal (detectDivergence rm c (Some trace) received))"
    then have "\<exists>m \<in> set (sent (launch c h ! i)). queues m"
      using removal_origin [OF assms(1,11)] assms(3) by simp
    with l show False by simp
  qed
  with l show ?thesis by simp
qed

theorem lagging_witness_inconclusive_witness:
  "launch (client [answering [Inl ErrHeightTooHigh, Inr (block 3 80 [7]), Inr (block 4 90 [8])]])
       \<lparr>Height = 5, Time = 100, Hash = [1]\<rparr> ! 0 =
     \<lparr>events = [Fetch 5, Fetch 0, Sleep 520, Fetch 0], sent = [Some (ProviderError ErrNoResponse)]\<rparr>
   \<and> 0 \<notin> set (removal (detectDivergence removeWitnesses
       (client [answering [Inl ErrHeightTooHigh, Inr (block 3 80 [7]), Inr (block 4 90 [8])]])
       (Some [block 1 10 [9], block 5 100 [1]]) [Some (ProviderError ErrNoResponse)]))"
proof -
  let ?w = "answering [Inl ErrHeightTooHigh, Inr (block 3 80 [7]), Inr (block 4 90 [8])]"
  let ?trace = "[block 1 10 [9], block 5 100 [1]]"
  have pend: "map sent (launch (client [?w]) (SignedHeader.truncate (last ?trace)))
      = [[Some (ProviderError ErrNoResponse)]]"
    by (simp add: launch_def client_def compareNewHeaderWithWitness_def getTargetBlockOrLatest_def
      Provider_LightBlock_def answering_def block_def SignedHeader.truncate_def)
  have "delivers [[Some (ProviderError ErrNoResponse)]] (length [0::nat])
      [Some (ProviderError ErrNoResponse)]"
    by (rule scheduled_delivers) simp
  then have d: "deliverable (client [?w]) ?trace [Some (ProviderError ErrNoResponse)]"
    unfolding deliverable_def pend by (simp add: witnesses_client)
  show ?thesis
    using lagging_witness_inconclusive
      [where trace = ?trace and c = "client [?w]" and i = 0
         and h = "\<lparr>Height = 5, Time = 100, Hash = [1]\<rparr>"
         and latest = "block 3 80 [7]" and latest' = "block 4 90 [8]"
         and received = "[Some (ProviderError ErrNoResponse)]" and rm = removeWitnesses, OF _ _ _ _ _ _ _ _ _ _ d]
    by (simp add: client_def answering_def block_def SignedHeader.truncate_def)
qed

section \<open>Which witnesses the detector removes\<close>

text \<open>
  C3: in a run of \<^verbatim>\<open>detectDivergence\<close> on a trace of at least two blocks, whatever the channel
  delivers and whatever the removal method does,
  \<^item> when the loop receives a result \<^verbatim>\<open>errBadWitness{reason, n}\<close>, index \<open>n\<close> is in the batch
    handed to the removal exactly when the reason is an \<^verbatim>\<open>ErrBadLightBlock\<close>;
  \<^item> a witness whose comparison ended in \<^verbatim>\<open>ErrNoResponse\<close> or \<^verbatim>\<open>ErrLightBlockNotFound\<close>, sent
    as it is (lines 122, 134, 179) or wrapped in \<^verbatim>\<open>errBadWitness\<close> (line 158), is not in the
    batch;
  \<^item> when the comparison of witness \<open>k\<close> ends in the single result \<^verbatim>\<open>nil\<close> (a match) and
    that of every other witness in \<^verbatim>\<open>ErrNoResponse\<close>, as it is or wrapped, the call returns
    \<^verbatim>\<open>nil\<close>, the batch is empty and the registry is unchanged, provided that removing the
    empty batch succeeds and leaves the registry as it is.
  Such runs exist: the channel always has a sequence to deliver (\<open>deliverable_exists\<close>).
\<close>

theorem unresponsive_witnesses_not_removed:
  assumes "2 \<le> length trace" and "h = SignedHeader.truncate (last trace)"
      and "deliverable c trace received"
  shows "(Some (errBadWitness reason n) \<in> set received \<longrightarrow>
          (n \<in> set (removal (detectDivergence rm c (Some trace) received))
             \<longleftrightarrow> (\<exists>s. reason = ErrBadLightBlock s)))
     \<and> ((e = ErrNoResponse \<or> e = ErrLightBlockNotFound)
          \<and> (sent (launch c h ! i) = [Some (ProviderError e)]
             \<or> sent (launch c h ! i) = [Some (errBadWitness e i)]) \<longrightarrow>
          i \<notin> set (removal (detectDivergence rm c (Some trace) received)))
     \<and> (k < length (witnesses c) \<and> sent (launch c h ! k) = [None]
          \<and> (\<forall>j<length (witnesses c). j \<noteq> k \<longrightarrow>
                sent (launch c h ! j) = [Some (ProviderError ErrNoResponse)]
                \<or> sent (launch c h ! j) = [Some (errBadWitness ErrNoResponse j)])
          \<and> rm [] (witnesses c) = (None, witnesses c) \<longrightarrow>
          detectDivergence rm c (Some trace) received =
            \<lparr>returned = Return None, registry = witnesses c, removal = [], locked = True,
             launched = launch c h\<rparr>)"
proof (intro conjI impI)
  assume "Some (errBadWitness reason n) \<in> set received"
  with assms(1,3)
  show "n \<in> set (removal (detectDivergence rm c (Some trace) received))
      \<longleftrightarrow> (\<exists>s. reason = ErrBadLightBlock s)"
    by (rule bad_witness_queued_iff)
next
  assume "(e = ErrNoResponse \<or> e = ErrLightBlockNotFound)
      \<and> (sent (launch c h ! i) = [Some (ProviderError e)]
         \<or> sent (launch c h ! i) = [Some (errBadWitness e i)])"
  then have "\<forall>m \<in> set (sent (launch c (SignedHeader.truncate (last trace)) ! i)). \<not> queues m"
    using assms(2) by auto
  with assms(1,3) show "i \<notin> set (removal (detectDivergence rm c (Some trace) received))"
    by (rule not_queued_not_removed)
next
  assume a: "k < length (witnesses c) \<and> sent (launch c h ! k) = [None]
          \<and> (\<forall>j<length (witnesses c). j \<noteq> k \<longrightarrow>
                sent (launch c h ! j) = [Some (ProviderError ErrNoResponse)]
                \<or> sent (launch c h ! j) = [Some (errBadWitness ErrNoResponse j)])
          \<and> rm [] (witnesses c) = (None, witnesses c)"
  then have "\<forall>j<length (witnesses c). j \<noteq> k \<longrightarrow>
      (\<exists>m. sent (launch c h ! j) = [m] \<and> \<not> queues m)"
    by auto
  with a show "detectDivergence rm c (Some trace) received =
            \<lparr>returned = Return None, registry = witnesses c, removal = [], locked = True,
             launched = launch c h\<rparr>"
    using one_match_rest_silent [OF assms, of k rm] by blast
qed

lemma example_pending:
  "map sent (launch
      (client [answering [Inl ErrHeightTooHigh, Inr (block 3 80 [7]), Inl ErrNoResponse],
               answering [Inr (block 5 100 [1])], answering []])
      (SignedHeader.truncate (last [block 1 10 [9], block 5 100 [1]]))) =
   [[Some (errBadWitness ErrNoResponse 0)], [None], [Some (ProviderError ErrNoResponse)]]"
  by (simp add: launch_def client_def compareNewHeaderWithWitness_def Provider_LightBlock_def
      getTargetBlockOrLatest_def compareHashes_def answering_def block_def
      SignedHeader.truncate_def)

lemma example_bad_block:
  "map sent (launch (client [answering [Inl ErrHeightTooHigh, Inr (block 3 80 [7]),
        Inl (ErrBadLightBlock ''bad'')]])
      (SignedHeader.truncate (last [block 1 10 [9], block 5 100 [1]]))) =
   [[Some (errBadWitness (ErrBadLightBlock ''bad'') 0)]]"
  by (simp add: launch_def client_def compareNewHeaderWithWitness_def Provider_LightBlock_def
      getTargetBlockOrLatest_def answering_def block_def SignedHeader.truncate_def)

theorem unresponsive_witnesses_not_removed_witness:
  "detectDivergence removeWitnesses
      (client [answering [Inl ErrHeightTooHigh, Inr (block 3 80 [7]), Inl ErrNoResponse],
               answering [Inr (block 5 100 [1])], answering []])
      (Some [block 1 10 [9], block 5 100 [1]])
      [Some (ProviderError ErrNoResponse), Some (errBadWitness ErrNoResponse 0), None]
    = \<lparr>returned = Return None,
       registry = [answering [Inl ErrHeightTooHigh, Inr (block 3 80 [7]), Inl ErrNoResponse],
                   answering [Inr (block 5 100 [1])], answering []],
       removal = [], locked = True,
       launched = launch
         (client [answering [Inl ErrHeightTooHigh, Inr (block 3 80 [7]), Inl ErrNoResponse],
                  answering [Inr (block 5 100 [1])], answering []])
         \<lparr>Height = 5, Time = 100, Hash = [1]\<rparr>\<rparr>
   \<and> 0 \<notin> set (removal (detectDivergence removeWitnesses
      (client [answering [Inl ErrHeightTooHigh, Inr (block 3 80 [7]), Inl ErrNoResponse],
               answering [Inr (block 5 100 [1])], answering []])
      (Some [block 1 10 [9], block 5 100 [1]])
      [Some (ProviderError ErrNoResponse), Some (errBadWitness ErrNoResponse 0), None]))
   \<and> 2 \<notin> set (removal (detectDivergence removeWitnesses
      (client [answering [Inl ErrHeightTooHigh, Inr (block 3 80 [7]), Inl ErrNoResponse],
               answering [Inr (block 5 100 [1])], answering []])
      (Some [block 1 10 [9], block 5 100 [1]])
      [Some (ProviderError ErrNoResponse), Some (errBadWitness ErrNoResponse 0), None]))
   \<and> 0 \<in> set (removal (detectDivergence removeWitnesses
      (client [answering [Inl ErrHeightTooHigh, Inr (block 3 80 [7]),
         Inl (ErrBadLightBlock ''bad'')]])
      (Some [block 1 10 [9], block 5 100 [1]])
      [Some (errBadWitness (ErrBadLightBlock ''bad'') 0)]))"
proof -
  let ?c = "client [answering [Inl ErrHeightTooHigh, Inr (block 3 80 [7]), Inl ErrNoResponse],
               answering [Inr (block 5 100 [1])], answering []]"
  let ?cB = "client [answering [Inl ErrHeightTooHigh, Inr (block 3 80 [7]),
         Inl (ErrBadLightBlock ''bad'')]]"
  let ?trace = "[block 1 10 [9], block 5 100 [1]]"
  let ?h = "\<lparr>Height = 5, Time = 100, Hash = [1]\<rparr>"
  let ?received = "[Some (ProviderError ErrNoResponse), Some (errBadWitness ErrNoResponse 0), None]"
  let ?receivedB = "[Some (errBadWitness (ErrBadLightBlock ''bad'') 0)]"
  have h: "?h = SignedHeader.truncate (last ?trace)"
    by (simp add: block_def SignedHeader.truncate_def)
  have "delivers [[Some (errBadWitness ErrNoResponse 0)], [None],
      [Some (ProviderError ErrNoResponse)]] (length [2, 0, 1 :: nat]) ?received"
    by (rule scheduled_delivers) simp
  then have d: "deliverable ?c ?trace ?received"
    unfolding deliverable_def example_pending by (simp add: witnesses_client)
  have "delivers [[Some (errBadWitness (ErrBadLightBlock ''bad'') 0)]] (length [0 :: nat])
      ?receivedB"
    by (rule scheduled_delivers) simp
  then have dB: "deliverable ?cB ?trace ?receivedB"
    unfolding deliverable_def example_bad_block by (simp add: witnesses_client)
  have nth: "sent (launch ?c ?h ! j) =
      [[Some (errBadWitness ErrNoResponse 0)], [None], [Some (ProviderError ErrNoResponse)]] ! j"
    if "j < 3" for j
    using that arg_cong [OF example_pending, of "\<lambda>xs. xs ! j"] unfolding h
    by (simp add: length_launch witnesses_client)
  have p0: "sent (launch ?c ?h ! 0) = [Some (errBadWitness ErrNoResponse 0)]"
    using nth [of 0] by simp
  have p1: "sent (launch ?c ?h ! 1) = [None]"
    using nth [of 1] by simp
  have p2: "sent (launch ?c ?h ! 2) = [Some (ProviderError ErrNoResponse)]"
    using nth [of 2] by simp
  have others: "\<forall>j<length (witnesses ?c). j \<noteq> 1 \<longrightarrow>
      sent (launch ?c ?h ! j) = [Some (ProviderError ErrNoResponse)]
      \<or> sent (launch ?c ?h ! j) = [Some (errBadWitness ErrNoResponse j)]"
    using p0 p2 by (auto simp: witnesses_client less_Suc_eq numeral_2_eq_2)
  note t = unresponsive_witnesses_not_removed
    [where trace = ?trace and h = ?h and c = ?c and received = ?received and rm = removeWitnesses
       and k = 1, OF _ h d]
  have a: "detectDivergence removeWitnesses ?c (Some ?trace) ?received =
            \<lparr>returned = Return None, registry = witnesses ?c, removal = [], locked = True,
             launched = launch ?c ?h\<rparr>"
    using t [where n = 0 and reason = ErrNoResponse and e = ErrNoResponse and i = 0] others p1
    by (simp add: witnesses_client removeWitnesses_none)
  have b: "0 \<notin> set (removal (detectDivergence removeWitnesses ?c (Some ?trace) ?received))"
    using t [where n = 0 and reason = ErrNoResponse and e = ErrNoResponse and i = 2] by simp
  have c: "2 \<notin> set (removal (detectDivergence removeWitnesses ?c (Some ?trace) ?received))"
    using t [where n = 0 and reason = ErrNoResponse and e = ErrNoResponse and i = 2] p2 by simp
  have e: "0 \<in> set (removal (detectDivergence removeWitnesses ?cB (Some ?trace) ?receivedB))"
    using unresponsive_witnesses_not_removed
      [where trace = ?trace and h = ?h and c = ?cB and received = ?receivedB
         and rm = removeWitnesses and n = 0 and reason = "ErrBadLightBlock ''bad''"
         and e = ErrNoResponse and i = 0 and k = 0, OF _ h dB]
    by simp
  show ?thesis
    using a b c e by (simp add: witnesses_client)
qed

lemma first_attempt_error:
  assumes "witness 0 (Height h) = Inl ErrHeightTooHigh"
    and "getTargetBlockOrLatest (Height h) witness [Fetch (Height h)] = ((b, Inl err), evs)"
  shows "compareNewHeaderWithWitness c h witness i =
     \<lparr>events = evs, sent = [Some (ProviderError err)]\<rparr>"
  using assms by (simp add: compareNewHeaderWithWitness_def Provider_LightBlock_def)

lemma second_attempt_error:
  assumes "witness 0 (Height h) = Inl ErrHeightTooHigh"
    and "getTargetBlockOrLatest (Height h) witness [Fetch (Height h)] = ((False, Inr latest), evs')"
    and "Time latest < Time h"
    and "getTargetBlockOrLatest (Height h) witness
           (evs' @ [Sleep (2 * maxClockDrift c + maxBlockLag c)]) = ((b, Inl err), evs'')"
  shows "compareNewHeaderWithWitness c h witness i =
     \<lparr>events = evs'', sent = [Some (errBadWitness err i)]\<rparr>"
  using assms by (simp add: compareNewHeaderWithWitness_def Provider_LightBlock_def)

text \<open>
  C9: a run on a trace of at least two blocks in which witness \<open>i\<close> answers the request for
  the target height with \<^verbatim>\<open>ErrHeightTooHigh\<close>. If the first call of
  \<^verbatim>\<open>getTargetBlockOrLatest\<close> fails with a provider error \<open>err\<close>, whichever it is, the
  comparator's only result is \<open>err\<close> itself, the type switch of the loop passes over it
  (no case matches) and \<open>i\<close> is not in the batch handed to the removal. If the first call
  finds the witness behind with an earlier time and the second call, after the sleep, fails
  with \<open>err'\<close>, the only result is \<^verbatim>\<open>errBadWitness{err', i}\<close>; once the loop receives it with
  \<open>err'\<close> an \<^verbatim>\<open>ErrBadLightBlock\<close>, \<open>i\<close> is in the batch.
\<close>

theorem reconciliation_errors_asymmetric:
  assumes "2 \<le> length trace" and "h = SignedHeader.truncate (last trace)"
      and "deliverable c trace received"
      and "i < length (witnesses c)"
      and "(witnesses c ! i) 0 (Height h) = Inl ErrHeightTooHigh"
  shows "(getTargetBlockOrLatest (Height h) (witnesses c ! i) [Fetch (Height h)]
            = ((b, Inl err), evs) \<longrightarrow>
          launch c h ! i = \<lparr>events = evs, sent = [Some (ProviderError err)]\<rparr>
          \<and> handleResults ws (Some (ProviderError err) # rest) hm wtr
              = handleResults ws rest hm wtr
          \<and> i \<notin> set (removal (detectDivergence rm c (Some trace) received)))
     \<and> (getTargetBlockOrLatest (Height h) (witnesses c ! i) [Fetch (Height h)]
            = ((False, Inr latest), evs')
          \<and> Time latest < Time h
          \<and> getTargetBlockOrLatest (Height h) (witnesses c ! i)
              (evs' @ [Sleep (2 * maxClockDrift c + maxBlockLag c)]) = ((b', Inl err'), evs'') \<longrightarrow>
          launch c h ! i = \<lparr>events = evs'', sent = [Some (errBadWitness err' i)]\<rparr>
          \<and> (Some (errBadWitness err' i) \<in> set received \<and> (\<exists>s. err' = ErrBadLightBlock s) \<longrightarrow>
              i \<in> set (removal (detectDivergence rm c (Some trace) received))))"
proof (intro conjI impI)
  assume a: "getTargetBlockOrLatest (Height h) (witnesses c ! i) [Fetch (Height h)]
      = ((b, Inl err), evs)"
  show l: "launch c h ! i = \<lparr>events = evs, sent = [Some (ProviderError err)]\<rparr>"
    using first_attempt_error [where witness = "witnesses c ! i" and h = h and c = c and i = i
        and b = b and err = err and evs = evs] assms(4,5) a
    by (simp add: nth_launch)
  show "handleResults ws (Some (ProviderError err) # rest) hm wtr = handleResults ws rest hm wtr"
    by simp
  have "\<forall>m \<in> set (sent (launch c (SignedHeader.truncate (last trace)) ! i)). \<not> queues m"
    using l assms(2) by simp
  with assms(1,3) show "i \<notin> set (removal (detectDivergence rm c (Some trace) received))"
    by (rule not_queued_not_removed)
next
  assume a: "getTargetBlockOrLatest (Height h) (witnesses c ! i) [Fetch (Height h)]
            = ((False, Inr latest), evs')
          \<and> Time latest < Time h
          \<and> getTargetBlockOrLatest (Height h) (witnesses c ! i)
              (evs' @ [Sleep (2 * maxClockDrift c + maxBlockLag c)]) = ((b', Inl err'), evs'')"
  then show "launch c h ! i = \<lparr>events = evs'', sent = [Some (errBadWitness err' i)]\<rparr>"
    using second_attempt_error [where witness = "witnesses c ! i" and h = h and c = c and i = i
        and latest = latest and evs' = evs' and b = b' and err = err' and evs'' = evs'']
      assms(4,5)
    by (simp add: nth_launch)
next
  assume "Some (errBadWitness err' i) \<in> set received \<and> (\<exists>s. err' = ErrBadLightBlock s)"
  then show "i \<in> set (removal (detectDivergence rm c (Some trace) received))"
    using queued_removed [OF assms(1,3,4), of "Some (errBadWitness err' i)" rm] by auto
qed

lemma example_first_attempt:
  "map sent (launch (client [answering [Inl ErrHeightTooHigh, Inl (ErrBadLightBlock ''bad'')]])
      (SignedHeader.truncate (last [block 1 10 [9], block 5 100 [1]]))) =
   [[Some (ProviderError (ErrBadLightBlock ''bad''))]]"
  by (simp add: launch_def client_def compareNewHeaderWithWitness_def Provider_LightBlock_def
      getTargetBlockOrLatest_def answering_def block_def SignedHeader.truncate_def)

lemma example_second_attempt:
  "map sent (launch (client [answering [Inl ErrHeightTooHigh, Inr (block 3 80 [7]),
        Inl (ErrBadLightBlock ''bad'')]])
      (SignedHeader.truncate (last [block 1 10 [9], block 5 100 [1]]))) =
   [[Some (errBadWitness (ErrBadLightBlock ''bad'') 0)]]"
  by (simp add: launch_def client_def compareNewHeaderWithWitness_def Provider_LightBlock_def
      getTargetBlockOrLatest_def answering_def block_def SignedHeader.truncate_def)

theorem reconciliation_errors_asymmetric_witness:
  "0 \<notin> set (removal (detectDivergence removeWitnesses
        (client [answering [Inl ErrHeightTooHigh, Inl (ErrBadLightBlock ''bad'')]])
        (Some [block 1 10 [9], block 5 100 [1]])
        [Some (ProviderError (ErrBadLightBlock ''bad''))]))
   \<and> 0 \<in> set (removal (detectDivergence removeWitnesses
        (client [answering [Inl ErrHeightTooHigh, Inr (block 3 80 [7]),
           Inl (ErrBadLightBlock ''bad'')]])
        (Some [block 1 10 [9], block 5 100 [1]])
        [Some (errBadWitness (ErrBadLightBlock ''bad'') 0)]))"
proof -
  let ?wA = "answering [Inl ErrHeightTooHigh, Inl (ErrBadLightBlock ''bad'')]"
  let ?wB = "answering [Inl ErrHeightTooHigh, Inr (block 3 80 [7]), Inl (ErrBadLightBlock ''bad'')]"
  let ?trace = "[block 1 10 [9], block 5 100 [1]]"
  let ?h = "\<lparr>Height = 5, Time = 100, Hash = [1]\<rparr>"
  have h: "?h = SignedHeader.truncate (last ?trace)"
    by (simp add: block_def SignedHeader.truncate_def)
  have "delivers [[Some (ProviderError (ErrBadLightBlock ''bad''))]] (length [0 :: nat])
      [Some (ProviderError (ErrBadLightBlock ''bad''))]"
    by (rule scheduled_delivers) simp
  then have dA: "deliverable (client [?wA]) ?trace [Some (ProviderError (ErrBadLightBlock ''bad''))]"
    unfolding deliverable_def example_first_attempt by (simp add: witnesses_client)
  have "delivers [[Some (errBadWitness (ErrBadLightBlock ''bad'') 0)]] (length [0 :: nat])
      [Some (errBadWitness (ErrBadLightBlock ''bad'') 0)]"
    by (rule scheduled_delivers) simp
  then have dB: "deliverable (client [?wB]) ?trace [Some (errBadWitness (ErrBadLightBlock ''bad'') 0)]"
    unfolding deliverable_def example_second_attempt by (simp add: witnesses_client)
  have A: "0 \<notin> set (removal (detectDivergence removeWitnesses (client [?wA]) (Some ?trace)
      [Some (ProviderError (ErrBadLightBlock ''bad''))]))"
    using reconciliation_errors_asymmetric
      [where trace = ?trace and h = ?h and c = "client [?wA]" and i = 0 and rm = removeWitnesses
         and b = False and err = "ErrBadLightBlock ''bad''" and evs = "[Fetch 5, Fetch 0]"
         and ws = "[]" and rest = "[]" and hm = False and wtr = "[]", OF _ h dA]
    by (simp add: witnesses_client answering_def getTargetBlockOrLatest_def Provider_LightBlock_def)
  have B: "0 \<in> set (removal (detectDivergence removeWitnesses (client [?wB]) (Some ?trace)
      [Some (errBadWitness (ErrBadLightBlock ''bad'') 0)]))"
    using reconciliation_errors_asymmetric
      [where trace = ?trace and h = ?h and c = "client [?wB]" and i = 0 and rm = removeWitnesses
         and latest = "block 3 80 [7]" and evs' = "[Fetch 5, Fetch 0]"
         and b' = False and err' = "ErrBadLightBlock ''bad''"
         and evs'' = "[Fetch 5, Fetch 0, Sleep 520, Fetch 0]"
         and ws = "[]" and rest = "[]" and hm = False and wtr = "[]", OF _ h dB]
    by (simp add: witnesses_client answering_def getTargetBlockOrLatest_def Provider_LightBlock_def
        block_def client_def)
  from A B show ?thesis by simp
qed

section \<open>The decision of \<^verbatim>\<open>detectDivergence\<close>\<close>

lemma example_conflicts:
  "map sent (launch (client [answering [Inr (block 5 100 [2])], answering [Inr (block 5 100 [3])]])
      (SignedHeader.truncate (last [block 1 10 [9], block 5 100 [1]]))) =
   [[Some (errConflictingHeaders (block 5 100 [2]) 0), None],
    [Some (errConflictingHeaders (block 5 100 [3]) 1), None]]"
  by (simp add: launch_def client_def compareNewHeaderWithWitness_def Provider_LightBlock_def
      compareHashes_def answering_def block_def SignedHeader.truncate_def)

text \<open>
  C1: the claim is that a run with no matching witness returns
  \<^verbatim>\<open>ErrFailedHeaderCrossReferencing\<close> and that every witness whose comparison reported a
  conflicting header is removed. The code does otherwise on this run: the primary's header
  has hash \<open>[1]\<close>, both witnesses answer with a block at the target height of another hash
  (\<open>[2]\<close> and \<open>[3]\<close>), so each comparator sends its conflict and then \<^verbatim>\<open>nil\<close> (see C2), and
  the two receives of the loop yield the two results of witness 0. Only index 0 is handed to
  the removal, and when the removal reports no error the call returns \<^verbatim>\<open>nil\<close>: the header
  is trusted, and witness 1 was never queued.
\<close>

theorem detectDivergence_trusts_conflicting_header:
  assumes "fst (rm [0] [answering [Inr (block 5 100 [2])], answering [Inr (block 5 100 [3])]])
     = None"
  shows "map sent (launch
           (client [answering [Inr (block 5 100 [2])], answering [Inr (block 5 100 [3])]])
           (SignedHeader.truncate (last [block 1 10 [9], block 5 100 [1]]))) =
       [[Some (errConflictingHeaders (block 5 100 [2]) 0), None],
        [Some (errConflictingHeaders (block 5 100 [3]) 1), None]]
     \<and> deliverable (client [answering [Inr (block 5 100 [2])], answering [Inr (block 5 100 [3])]])
         [block 1 10 [9], block 5 100 [1]] [Some (errConflictingHeaders (block 5 100 [2]) 0), None]
     \<and> returned (detectDivergence rm
           (client [answering [Inr (block 5 100 [2])], answering [Inr (block 5 100 [3])]])
           (Some [block 1 10 [9], block 5 100 [1]])
           [Some (errConflictingHeaders (block 5 100 [2]) 0), None]) = Return None
     \<and> removal (detectDivergence rm
           (client [answering [Inr (block 5 100 [2])], answering [Inr (block 5 100 [3])]])
           (Some [block 1 10 [9], block 5 100 [1]])
           [Some (errConflictingHeaders (block 5 100 [2]) 0), None]) = [0]
     \<and> registry (detectDivergence rm
           (client [answering [Inr (block 5 100 [2])], answering [Inr (block 5 100 [3])]])
           (Some [block 1 10 [9], block 5 100 [1]])
           [Some (errConflictingHeaders (block 5 100 [2]) 0), None])
         = snd (rm [0] [answering [Inr (block 5 100 [2])], answering [Inr (block 5 100 [3])]])"
proof -
  let ?ws = "[answering [Inr (block 5 100 [2])], answering [Inr (block 5 100 [3])]]"
  let ?trace = "[block 1 10 [9], block 5 100 [1]]"
  let ?received = "[Some (errConflictingHeaders (block 5 100 [2]) 0), None]"
  have "delivers [[Some (errConflictingHeaders (block 5 100 [2]) 0), None],
      [Some (errConflictingHeaders (block 5 100 [3]) 1), None]] (length [0, 0 :: nat]) ?received"
    by (rule scheduled_delivers) simp
  then have d: "deliverable (client ?ws) ?trace ?received"
    unfolding deliverable_def example_conflicts by (simp add: witnesses_client)
  obtain e ws' where rm: "rm [0] ?ws = (e, ws')" by (cases "rm [0] ?ws")
  with assms have e: "e = None" by simp
  have "detectDivergence rm (client ?ws) (Some ?trace) ?received =
      \<lparr>returned = Return None, registry = ws', removal = [0],
       locked = True, launched = launch (client ?ws) (SignedHeader.truncate (last ?trace))\<rparr>"
    using detectDivergence_run [OF _ _ d, of rm] rm e
    by (simp add: witnesses_client)
  with d example_conflicts rm show ?thesis by simp
qed

theorem detectDivergence_trusts_conflicting_header_witness:
  "returned (detectDivergence removeWitnesses
       (client [answering [Inr (block 5 100 [2])], answering [Inr (block 5 100 [3])]])
       (Some [block 1 10 [9], block 5 100 [1]])
       [Some (errConflictingHeaders (block 5 100 [2]) 0), None]) = Return None
   \<and> removal (detectDivergence removeWitnesses
       (client [answering [Inr (block 5 100 [2])], answering [Inr (block 5 100 [3])]])
       (Some [block 1 10 [9], block 5 100 [1]])
       [Some (errConflictingHeaders (block 5 100 [2]) 0), None]) = [0]
   \<and> registry (detectDivergence removeWitnesses
       (client [answering [Inr (block 5 100 [2])], answering [Inr (block 5 100 [3])]])
       (Some [block 1 10 [9], block 5 100 [1]])
       [Some (errConflictingHeaders (block 5 100 [2]) 0), None])
     = [answering [Inr (block 5 100 [3])]]"
  using detectDivergence_trusts_conflicting_header [where rm = removeWitnesses]
  by (simp add: removeWitnesses_def)

section \<open>\<^verbatim>\<open>HexBytes.ShortString\<close>\<close>

text \<open>
  C10 as stated fails: a value of length 2 whose capacity is 3 has fewer than three bytes,
  and \<^verbatim>\<open>bz[:3]\<close> is in range; \<^verbatim>\<open>ShortString\<close> returns six hex digits, the last two from the
  byte behind the value's end.
\<close>

theorem ShortString_short_value_in_range:
  "wellformed \<lparr>array = [0xAB, 0xCD, 0], len = 2\<rparr>
   \<and> len \<lparr>array = [0xAB, 0xCD, 0], len = 2\<rparr> < 3
   \<and> Bytes \<lparr>array = [0xAB, 0xCD, 0], len = 2\<rparr> = [0xAB, 0xCD]
   \<and> ShortString \<lparr>array = [0xAB, 0xCD, 0], len = 2\<rparr> = Inr ''ABCD00''"
  by code_simp

lemma length_EncodeToString: "length (EncodeToString src) = 2 * length src"
  by (induction src) auto

lemma length_ToUpper: "length (ToUpper s) = length s"
  by (simp add: ToUpper_def)

lemma high_nibble_bound: "unat (drop_bit 4 (v :: 8 word)) < 16"
proof -
  have v: "unat v < 256" using unsigned_less [of v] by simp
  have "unat (drop_bit 4 v) = drop_bit 4 (unat v)" by (rule unat_drop_bit_eq)
  also have "\<dots> = unat v div 16" by (simp add: drop_bit_eq_div)
  finally show ?thesis using v by simp
qed

lemma low_nibble_bound: "unat (and v (0x0f :: 8 word)) < 16"
proof -
  have "and v (0x0f :: 8 word) = take_bit 4 v"
    by (simp add: take_bit_eq_mask mask_eq_exp_minus_1)
  then have "unat (and v (0x0f :: 8 word)) = unat (take_bit 4 v)" by (rule arg_cong)
  also have "\<dots> = take_bit 4 (unat v)" by (rule unsigned_take_bit_eq)
  also have "\<dots> = unat v mod 16" by (simp add: take_bit_eq_mod)
  finally show ?thesis by simp
qed

lemma upper_hex_digits:
  "\<forall>n \<in> set [0..<16]. set (ToUpper [hextable ! n]) \<subseteq> set ''0123456789ABCDEF''"
  by code_simp

lemma upper_hex_digit:
  "n < 16 \<Longrightarrow> set (ToUpper [hextable ! n]) \<subseteq> set ''0123456789ABCDEF''"
  using upper_hex_digits by simp

lemma ToUpper_Cons: "ToUpper (c # s) = ToUpper [c] @ ToUpper s"
  by (simp add: ToUpper_def)

lemma upper_hex_chars: "set (ToUpper (EncodeToString src)) \<subseteq> set ''0123456789ABCDEF''"
proof (induction src)
  case Nil
  then show ?case by (simp add: ToUpper_def)
next
  case (Cons v src)
  have "ToUpper (EncodeToString (v # src)) =
      ToUpper [hextable ! unat (drop_bit 4 v)] @ ToUpper [hextable ! unat (and v 0x0f)]
        @ ToUpper (EncodeToString src)"
    by (simp add: ToUpper_def)
  then show ?case
    using Cons upper_hex_digit [OF high_nibble_bound, of v] upper_hex_digit [OF low_nibble_bound, of v]
    by (simp del: EncodeToString.simps)
qed

text \<open>
  C10, amended: on a slice whose length is at most its capacity, \<^verbatim>\<open>ShortString\<close> returns the
  upper-case hex encoding of the value's first three bytes when the length is at least 3;
  more generally it returns that of the first three bytes of the backing array when the
  capacity is at least 3, and panics with the slice bounds out of range exactly when the
  capacity is below 3. A returned string has six characters, all upper-case hex digits.
\<close>

theorem ShortString_in_range_iff_capacity:
  assumes "wellformed bz"
  shows "(3 \<le> len bz \<longrightarrow> ShortString bz = Inr (ToUpper (EncodeToString (take 3 (Bytes bz)))))
       \<and> (3 \<le> cap bz \<longrightarrow> ShortString bz = Inr (ToUpper (EncodeToString (take 3 (array bz)))))
       \<and> (cap bz < 3 \<longleftrightarrow> ShortString bz = Inl SliceBoundsOutOfRange)
       \<and> (ShortString bz = Inr s \<longrightarrow> length s = 6 \<and> set s \<subseteq> set ''0123456789ABCDEF'')"
proof (intro conjI impI)
  assume "3 \<le> len bz"
  with assms show "ShortString bz = Inr (ToUpper (EncodeToString (take 3 (Bytes bz))))"
    by (simp add: ShortString_def slice_to_def Bytes_def wellformed_def cap_def)
next
  assume "3 \<le> cap bz"
  then show "ShortString bz = Inr (ToUpper (EncodeToString (take 3 (array bz))))"
    by (simp add: ShortString_def slice_to_def Bytes_def)
next
  show "cap bz < 3 \<longleftrightarrow> ShortString bz = Inl SliceBoundsOutOfRange"
    by (auto simp: ShortString_def slice_to_def)
next
  assume r: "ShortString bz = Inr s"
  then have c: "3 \<le> length (array bz)"
    by (simp add: ShortString_def slice_to_def cap_def split: if_splits)
  from r have s: "s = ToUpper (EncodeToString (take 3 (array bz)))"
    by (simp add: ShortString_def slice_to_def Bytes_def split: if_splits)
  from c show "length s = 6"
    unfolding s by (simp add: length_ToUpper length_EncodeToString)
  show "set s \<subseteq> set ''0123456789ABCDEF''"
    unfolding s by (rule upper_hex_chars)
qed

theorem ShortString_in_range_iff_capacity_witness:
  "wellformed \<lparr>array = [0xAB, 0xCD, 0xEF, 0x12], len = 4\<rparr>
   \<and> ShortString \<lparr>array = [0xAB, 0xCD, 0xEF, 0x12], len = 4\<rparr> = Inr ''ABCDEF''
   \<and> ShortString \<lparr>array = [0xAB, 0xCD], len = 2\<rparr> = Inl SliceBoundsOutOfRange"
proof -
  have w: "wellformed \<lparr>array = [0xAB, 0xCD, 0xEF, 0x12], len = 4\<rparr>"
    "wellformed \<lparr>array = [0xAB, 0xCD], len = 2\<rparr>"
    by (simp_all add: wellformed_def cap_def)
  have e: "ToUpper (EncodeToString (take 3 (Bytes \<lparr>array = [0xAB, 0xCD, 0xEF, 0x12], len = 4\<rparr>)))
      = ''ABCDEF''"
    by code_simp
  show ?thesis
    using ShortString_in_range_iff_capacity [OF w(1)] ShortString_in_range_iff_capacity [OF w(2)]
      e w(1)
    by (simp add: cap_def)
qed

end
